theory Spec2Isabelle
  imports Complex_Main
begin

section \<open>Python values, exceptions and frames\<close>

text \<open>
  Exceptions that derive from Python's \<open>Exception\<close> class. \<open>LibraryError\<close> stands for
  whatever the video library or the model runtime raises (for example \<open>cv2.error\<close>).
  Signals that are not subclasses of \<open>Exception\<close> (\<open>KeyboardInterrupt\<close>, \<open>SystemExit\<close>)
  are not modelled.
\<close>

datatype pyexn = ZeroDivisionError | TypeError | ValueError | LibraryError string

text \<open>The Python objects a caller can pass where the code expects a class filter or a frame.\<close>

datatype pyval =
    PyNone
  | PyBool bool
  | PyInt int
  | PyFloat real
  | PyStr string
  | PyList "pyval list"

text \<open>A \<open>numpy.ndarray\<close>: its shape and its contents, flattened.\<close>

record ndarray =
  shape :: "nat list"
  pixels :: "nat list"

text \<open>The frame argument: an ndarray, or any other object (\<open>NotArray PyNone\<close> is \<open>None\<close>).\<close>

datatype frame_arg = NotArray pyval | Array ndarray

section \<open>detection.py: YoloDetector\<close>

text \<open>
  The external collaborators of \<open>detect_and_plot\<close>, each of which may raise:
  \<open>cv2.resize(frame, (w, h))\<close>, the call \<open>self.model(img, conf=..., classes=..., verbose=False)\<close>
  of the ultralytics model, and \<open>r.plot()\<close> of one of its result objects. They are
  parameters of the model; \<open>'r\<close> is the type of the result objects.
\<close>

record 'r runtime =
  cv2_resize :: "ndarray \<Rightarrow> nat \<times> nat \<Rightarrow> pyexn + ndarray"
  yolo_model :: "ndarray \<Rightarrow> real \<Rightarrow> pyval \<Rightarrow> pyexn + 'r list"
  plot :: "'r \<Rightarrow> pyexn + ndarray"

text \<open>The fields \<open>frame_count\<close>, \<open>skip_frames\<close> and \<open>last_result\<close> of a YoloDetector.\<close>

record detector =
  frame_count :: int
  skip_frames :: int
  last_result :: "ndarray option"

text \<open>\<open>YoloDetector.__init__\<close> (the loading of the model apart).\<close>

definition new_detector :: "int \<Rightarrow> detector" where
  "new_detector skip = \<lparr>frame_count = 0, skip_frames = skip, last_result = None\<rparr>"

text \<open>One invocation of the model: the image, the threshold and the class filter it was given.\<close>

datatype inference_call =
  InferenceCall (ic_image: ndarray) (ic_conf: real) (ic_classes: pyval)

text \<open>
  What one call of \<open>detect_and_plot\<close> does: the value it returns (\<open>Inr None\<close> is Python's
  \<open>None\<close>) or the exception it lets through, the detector afterwards, and the invocation
  of the model it made, if any.
\<close>

record call_result =
  returned :: "pyexn + ndarray option"
  det :: detector
  inferred :: "inference_call option"

text \<open>\<open>isinstance(item, int)\<close>: \<open>bool\<close> is a subclass of \<open>int\<close>.\<close>

fun isinstance_int :: "pyval \<Rightarrow> bool" where
  "isinstance_int (PyInt _) = True"
| "isinstance_int (PyBool _) = True"
| "isinstance_int _ = False"

text \<open>
  Lines 49-54: the class filter is kept when it is \<open>None\<close> or an iterable of integers,
  replaced by \<open>None\<close> when it is a string or has another element; iterating over an object
  that is not iterable raises \<open>TypeError\<close>.
\<close>

fun check_classes :: "pyval \<Rightarrow> pyexn + pyval" where
  "check_classes PyNone = Inr PyNone"
| "check_classes (PyStr s) = Inr PyNone"
| "check_classes (PyList items) =
     (if list_all isinstance_int items then Inr (PyList items) else Inr PyNone)"
| "check_classes _ = Inl TypeError"

definition detect_and_plot ::
  "'r runtime \<Rightarrow> detector \<Rightarrow> frame_arg \<Rightarrow> real \<Rightarrow> pyval \<Rightarrow> call_result" where
  "detect_and_plot rt self frame_arg conf_thres classes =
     (case frame_arg of
        NotArray _ \<Rightarrow> \<lparr>returned = Inr None, det = self, inferred = None\<rparr>
      | Array frame \<Rightarrow>
          (let self1 = self\<lparr>frame_count := frame_count self + 1\<rparr> in
           if skip_frames self1 + 1 = 0 then
             \<lparr>returned = Inl ZeroDivisionError, det = self1, inferred = None\<rparr>
           else if frame_count self1 mod (skip_frames self1 + 1) \<noteq> 1 then
             (case last_result self1 of
                Some r \<Rightarrow> \<lparr>returned = Inr (Some r), det = self1, inferred = None\<rparr>
              | None \<Rightarrow> \<lparr>returned = Inr (Some frame), det = self1, inferred = None\<rparr>)
           else
             (case check_classes classes of
                Inl e \<Rightarrow> \<lparr>returned = Inl e, det = self1, inferred = None\<rparr>
              | Inr classes1 \<Rightarrow>
                  (case cv2_resize rt frame (640, 480) of
                     Inl e \<Rightarrow> \<lparr>returned = Inl e, det = self1, inferred = None\<rparr>
                   | Inr resized_frame \<Rightarrow>
                       (let call = InferenceCall resized_frame conf_thres classes1 in
                        case yolo_model rt resized_frame conf_thres classes1 of
                          Inl e \<Rightarrow>
                            \<lparr>returned = Inr (Some frame), det = self1, inferred = Some call\<rparr>
                        | Inr [] \<Rightarrow>
                            \<lparr>returned = Inr (Some frame),
                             det = self1\<lparr>last_result := Some frame\<rparr>,
                             inferred = Some call\<rparr>
                        | Inr (r # _) \<Rightarrow>
                            (case plot rt r of
                               Inl e \<Rightarrow>
                                 \<lparr>returned = Inl e, det = self1, inferred = Some call\<rparr>
                             | Inr annotated \<Rightarrow>
                                 \<lparr>returned = Inr (Some annotated),
                                  det = self1\<lparr>last_result := Some annotated\<rparr>,
                                  inferred = Some call\<rparr>))))))"

text \<open>
  Consecutive calls on one detector. Each call comes with the behaviour of the external
  libraries during that call. Both callers of the repository catch an exception of a call
  and go on with the next frame, so the detector is carried on after every outcome.
\<close>

fun run_calls ::
  "detector \<Rightarrow> ('r runtime \<times> frame_arg \<times> real \<times> pyval) list \<Rightarrow> call_result list" where
  "run_calls self [] = []"
| "run_calls self ((rt, frame, conf_thres, classes) # rest) =
     (let out = detect_and_plot rt self frame conf_thres classes
      in out # run_calls (det out) rest)"

text \<open>
  The annotated frame the libraries produce for one invocation of the model: the rendering
  of the first result object, when the model returns one and rendering it succeeds.
\<close>

definition annotate :: "'r runtime \<Rightarrow> inference_call \<Rightarrow> ndarray option" where
  "annotate rt call =
     (case yolo_model rt (ic_image call) (ic_conf call) (ic_classes call) of
        Inr (r # _) \<Rightarrow> (case plot rt r of Inr annotated \<Rightarrow> Some annotated | Inl _ \<Rightarrow> None)
      | _ \<Rightarrow> None)"

text \<open>The last entry that exists, of a list in the order of time.\<close>

fun most_recent :: "'a option list \<Rightarrow> 'a option" where
  "most_recent [] = None"
| "most_recent (x # xs) = (case most_recent xs of Some a \<Rightarrow> Some a | None \<Rightarrow> x)"

text \<open>The cached frame if there is one, else the input frame, as a returned value.\<close>

definition cached_or :: "ndarray option \<Rightarrow> ndarray \<Rightarrow> pyexn + ndarray option" where
  "cached_or cache frame = Inr (Some (case cache of Some a \<Rightarrow> a | None \<Rightarrow> frame))"

subsection \<open>Stand-ins for the libraries, for concrete runs\<close>

text \<open>
  A resize that sets the first two dimensions to (height, width), a model that returns one
  result object holding its image, and a rendering that marks the image.
\<close>

definition demo_resize :: "ndarray \<Rightarrow> nat \<times> nat \<Rightarrow> pyexn + ndarray" where
  "demo_resize f dsize = Inr (f\<lparr>shape := snd dsize # fst dsize # drop 2 (shape f)\<rparr>)"

definition demo_runtime :: "ndarray runtime" where
  "demo_runtime =
     \<lparr>cv2_resize = demo_resize,
      yolo_model = (\<lambda>img conf classes. Inr [img]),
      plot = (\<lambda>r. Inr (r\<lparr>pixels := 255 # pixels r\<rparr>))\<rparr>"

text \<open>The same, with a model whose every invocation raises.\<close>

definition failing_runtime :: "ndarray runtime" where
  "failing_runtime =
     \<lparr>cv2_resize = demo_resize,
      yolo_model = (\<lambda>img conf classes. Inl (LibraryError ''inference failed'')),
      plot = (\<lambda>r. Inr r)\<rparr>"

text \<open>The same, with a rendering that raises.\<close>

definition plot_failing_runtime :: "ndarray runtime" where
  "plot_failing_runtime =
     \<lparr>cv2_resize = demo_resize,
      yolo_model = (\<lambda>img conf classes. Inr [img]),
      plot = (\<lambda>r. Inl (LibraryError ''plot failed''))\<rparr>"

text \<open>The same, with a resize that raises, as \<open>cv2.resize\<close> does on an empty array.\<close>

definition resize_failing_runtime :: "ndarray runtime" where
  "resize_failing_runtime =
     \<lparr>cv2_resize = (\<lambda>f dsize. Inl (LibraryError ''resize failed'')),
      yolo_model = (\<lambda>img conf classes. Inr [img]),
      plot = (\<lambda>r. Inr r)\<rparr>"

definition hd_frame :: ndarray where
  "hd_frame = \<lparr>shape = [720, 1280, 3], pixels = [1, 2, 3]\<rparr>"

text \<open>Frames of one size that differ in their contents.\<close>

definition demo_frame :: "nat \<Rightarrow> ndarray" where
  "demo_frame n = \<lparr>shape = [720, 1280, 3], pixels = [n]\<rparr>"

text \<open>What the stand-in libraries make of such a frame: resized, then annotated.\<close>

definition demo_annotated :: "nat \<Rightarrow> ndarray" where
  "demo_annotated n = \<lparr>shape = [480, 640, 3], pixels = [255, n]\<rparr>"

text \<open>Nine calls on frames 1 to 9; the model raises during the fourth.\<close>

definition demo_nine_calls :: "(ndarray runtime \<times> frame_arg \<times> real \<times> pyval) list" where
  "demo_nine_calls =
     [(demo_runtime, Array (demo_frame 1), 1 / 4, PyNone),
      (demo_runtime, Array (demo_frame 2), 1 / 4, PyNone),
      (demo_runtime, Array (demo_frame 3), 1 / 4, PyNone),
      (failing_runtime, Array (demo_frame 4), 1 / 4, PyNone),
      (demo_runtime, Array (demo_frame 5), 1 / 4, PyNone),
      (demo_runtime, Array (demo_frame 6), 1 / 4, PyNone),
      (demo_runtime, Array (demo_frame 7), 1 / 4, PyNone),
      (demo_runtime, Array (demo_frame 8), 1 / 4, PyNone),
      (demo_runtime, Array (demo_frame 9), 1 / 4, PyNone)]"

section \<open>capture_thread.py: VideoCaptureThread\<close>

datatype camera_msg = CannotOpenCamera | ReadFailed

text \<open>
  What the worker does to the capture object and to its signals: the three \<open>cap.set\<close>
  calls, \<open>cameraError.emit\<close>, \<open>cap.read\<close>, \<open>frameCaptured.emit\<close>, \<open>time.sleep\<close>
  and \<open>cap.release\<close>.
\<close>

datatype capture_event =
    CapSetProps
  | CameraError camera_msg
  | CapRead
  | FrameCaptured "ndarray option"
  | Sleep
  | CapRelease

text \<open>
  The camera: what \<open>cv2.VideoCapture(index, cv2.CAP_DSHOW)\<close> and, after an exception
  there, \<open>cv2.VideoCapture(index)\<close> do: raise, or give a capture object whose
  \<open>isOpened()\<close> is the boolean.
\<close>

record camera =
  open_dshow :: "pyexn + bool"
  open_default :: "pyexn + bool"

text \<open>
  What the worker finds at the head of one turn of \<open>while self._running\<close>: the flag is
  False (stop was requested), or it is True and \<open>cap.read()\<close> gives \<open>(ret, frame)\<close>.
\<close>

datatype loop_obs = StopRequested | ReadResult bool "ndarray option"

text \<open>
  The capture object \<open>self.cap\<close>, as to the device: \<open>isOpened()\<close> was False and no
  device handle was acquired, or a handle is held, or \<open>release()\<close> has given it back.
\<close>

datatype cap_state = NotOpened | Opened | Released

text \<open>
  How \<open>run\<close> ends: the exception that leaves it, if one does, the events of the run, and
  the state of the capture object at that moment.
\<close>

record run_result =
  run_raised :: "pyexn option"
  run_events :: "capture_event list"
  run_cap :: cap_state

text \<open>
  \<open>time.sleep(1 / (self.fps + 1e-6))\<close>: the division raises when the divisor is zero,
  and \<open>time.sleep\<close> raises \<open>ValueError\<close> on a negative length.
\<close>

definition time_sleep :: "real \<Rightarrow> pyexn option" where
  "time_sleep fps =
     (if fps + 1 / 1000000 = 0 then Some ZeroDivisionError
      else if 1 / (fps + 1 / 1000000) < 0 then Some ValueError
      else None)"

text \<open>
  Lines 50-57: the detector, if there is one, is called with its default threshold and
  filter; an exception of it is printed and the frame stays as read.
\<close>

definition detect_frame ::
  "'r runtime \<Rightarrow> detector option \<Rightarrow> ndarray \<Rightarrow> ndarray option \<times> detector option" where
  "detect_frame rt d f =
     (case d of
        None \<Rightarrow> (Some f, None)
      | Some self \<Rightarrow>
          (let out = detect_and_plot rt self (Array f) 0.25 PyNone
           in ((case returned out of Inl e \<Rightarrow> Some f | Inr v \<Rightarrow> v), Some (det out))))"

text \<open>
  The loop of \<open>run\<close> and the release after it, on the observations of its turns, for a
  capture that is open. \<open>None\<close> says that the loop is still running when the observations
  end. An exception of the sleep leaves the loop and \<open>run\<close> at once, before the release.
  \<open>cap.read\<close> and the emission of the signals are taken not to raise.
\<close>

fun capture_loop ::
  "'r runtime \<Rightarrow> real \<Rightarrow> detector option \<Rightarrow> loop_obs list \<Rightarrow> capture_event list
     \<Rightarrow> run_result option" where
  "capture_loop rt fps d [] tr = None"
| "capture_loop rt fps d (StopRequested # rest) tr =
     Some \<lparr>run_raised = None, run_events = tr @ [CapRelease], run_cap = Released\<rparr>"
| "capture_loop rt fps d (ReadResult ret frame # rest) tr =
     (case frame of
        None \<Rightarrow>
          Some \<lparr>run_raised = None,
                run_events = tr @ [CapRead, CameraError ReadFailed, CapRelease],
                run_cap = Released\<rparr>
      | Some f \<Rightarrow>
          if \<not> ret then
            Some \<lparr>run_raised = None,
                  run_events = tr @ [CapRead, CameraError ReadFailed, CapRelease],
                  run_cap = Released\<rparr>
          else
            (case time_sleep fps of
               Some e \<Rightarrow>
                 Some \<lparr>run_raised = Some e,
                       run_events = tr @ [CapRead, FrameCaptured (fst (detect_frame rt d f))],
                       run_cap = Opened\<rparr>
             | None \<Rightarrow>
                 capture_loop rt fps (snd (detect_frame rt d f)) rest
                   (tr @ [CapRead, FrameCaptured (fst (detect_frame rt d f)), Sleep])))"

text \<open>
  \<open>VideoCaptureThread.run\<close>. When both constructors raise, the exception leaves \<open>run\<close>
  with \<open>self.cap\<close> still \<open>None\<close>. When the capture is not opened, the error is emitted and
  \<open>run\<close> returns.
\<close>

definition run ::
  "'r runtime \<Rightarrow> real \<Rightarrow> detector option \<Rightarrow> camera \<Rightarrow> loop_obs list
     \<Rightarrow> run_result option" where
  "run rt fps d cam script =
     (case (case open_dshow cam of Inl _ \<Rightarrow> open_default cam | Inr b \<Rightarrow> Inr b) of
        Inl e \<Rightarrow> Some \<lparr>run_raised = Some e, run_events = [], run_cap = NotOpened\<rparr>
      | Inr opened \<Rightarrow>
          if \<not> opened then
            Some \<lparr>run_raised = None,
                  run_events = [CapSetProps, CameraError CannotOpenCamera],
                  run_cap = NotOpened\<rparr>
          else capture_loop rt fps d script [CapSetProps])"

text \<open>
  The thread object as the controlling thread sees it: the flag \<open>_running\<close>, whether the
  worker has not been started, is in \<open>run\<close>, or has returned from it, and the events of the
  worker so far.
\<close>

datatype thread_phase = NotStarted | InRun | Finished

record capture_thread =
  running :: bool
  phase :: thread_phase
  events :: "capture_event list"

text \<open>
  \<open>QThread.quit\<close> asks the thread's event loop to exit; \<open>run\<close> is overridden and starts
  none. \<open>QThread.wait\<close> returns at once on a thread that has finished or was never
  started; on a thread in \<open>run\<close> it blocks until \<open>run\<close> has returned. \<open>rest\<close> is what
  the worker still does until then. A \<open>wait\<close> that never returns is not modelled.
\<close>

definition qthread_quit :: "capture_thread \<Rightarrow> capture_thread" where
  "qthread_quit t = t"

definition qthread_wait :: "capture_thread \<Rightarrow> capture_event list \<Rightarrow> capture_thread" where
  "qthread_wait t rest =
     (case phase t of
        InRun \<Rightarrow> t\<lparr>phase := Finished, events := events t @ rest\<rparr>
      | _ \<Rightarrow> t)"

text \<open>\<open>VideoCaptureThread.stop\<close>.\<close>

definition stop_thread :: "capture_thread \<Rightarrow> capture_event list \<Rightarrow> capture_thread" where
  "stop_thread t rest = qthread_wait (qthread_quit (t\<lparr>running := False\<rparr>)) rest"

section \<open>video_player.py: VideoPlayer\<close>

text \<open>
  A \<open>cv2.VideoCapture\<close> on a file: the results \<open>(ret, frame)\<close> its coming reads give,
  and the number of frames read so far (\<open>CAP_PROP_POS_FRAMES\<close>). A read beyond the end
  gives \<open>(False, None)\<close>.
\<close>

record video_capture =
  coming :: "(bool \<times> frame_arg) list"
  pos_frames :: nat

text \<open>
  The calls a player makes on its timer, on its capture and on the main window.
\<close>

datatype player_call =
    TimerStart
  | TimerStop
  | Release
  | Read
  | StopVideo
  | LogInvalidFrame
  | LogShape "nat list"
  | UpdatePlaybackPosition nat
  | UpdatePlaybackFrame ndarray

record video_player =
  cap :: "video_capture option"
  isPlaying :: bool
  isPaused :: bool
  timer_active :: bool
  calls :: "player_call list"

text \<open>\<open>VideoPlayer.__init__\<close>.\<close>

definition new_player :: video_player where
  "new_player =
     \<lparr>cap = None, isPlaying = False, isPaused = False, timer_active = False, calls = []\<rparr>"

text \<open>
  \<open>VideoPlayer.open\<close>: \<open>opened\<close> is what \<open>isOpened()\<close> of the new capture says; the
  capture is stored in both cases.
\<close>

definition open_player :: "video_player \<Rightarrow> video_capture \<Rightarrow> bool \<Rightarrow> bool \<times> video_player" where
  "open_player p c opened = (opened, p\<lparr>cap := Some c\<rparr>)"

text \<open>
  \<open>start\<close>, \<open>pause\<close> and \<open>stop\<close>. Of the timer only whether it is active is kept; its
  period \<open>int(1000 / (fps + 1e-6))\<close> is not.
\<close>

definition start :: "video_player \<Rightarrow> video_player" where
  "start p = p\<lparr>isPlaying := True, isPaused := False, timer_active := True,
               calls := calls p @ [TimerStart]\<rparr>"

definition pause :: "video_player \<Rightarrow> video_player" where
  "pause p = p\<lparr>isPaused := True, isPlaying := False, timer_active := False,
               calls := calls p @ [TimerStop]\<rparr>"

definition stop :: "video_player \<Rightarrow> video_player" where
  "stop p =
     (let p1 = p\<lparr>isPlaying := False, isPaused := False\<rparr>;
          p2 = (if timer_active p1
                then p1\<lparr>timer_active := False, calls := calls p1 @ [TimerStop]\<rparr>
                else p1)
      in case cap p2 of
           Some c \<Rightarrow> p2\<lparr>cap := None, calls := calls p2 @ [Release]\<rparr>
         | None \<Rightarrow> p2)"

text \<open>
  \<open>MainWindow.stop_video\<close>, as far as the player is concerned: the window's player is
  stopped.
\<close>

definition stop_video :: "video_player \<Rightarrow> video_player" where
  "stop_video p = stop (p\<lparr>calls := calls p @ [StopVideo]\<rparr>)"

text \<open>\<open>cap.read()\<close>.\<close>

definition read_capture :: "video_capture \<Rightarrow> (bool \<times> frame_arg) \<times> video_capture" where
  "read_capture c =
     (case coming c of
        [] \<Rightarrow> ((False, NotArray PyNone), c)
      | r # rest \<Rightarrow> (r, c\<lparr>coming := rest, pos_frames := pos_frames c + (if fst r then 1 else 0)\<rparr>))"

text \<open>\<open>VideoPlayer._next_frame\<close>, the slot of the timer.\<close>

definition next_frame :: "video_player \<Rightarrow> video_player" where
  "next_frame p =
     (case cap p of
        None \<Rightarrow> p
      | Some c \<Rightarrow>
          if \<not> isPlaying p \<or> isPaused p then p
          else
            (let (r, c1) = read_capture c;
                 p1 = p\<lparr>cap := Some c1, calls := calls p @ [Read]\<rparr>
             in case snd r of
                  NotArray v \<Rightarrow>
                    if \<not> fst r \<or> v = PyNone then stop_video p1
                    else stop_video (p1\<lparr>calls := calls p1 @ [LogInvalidFrame]\<rparr>)
                | Array frame \<Rightarrow>
                    if \<not> fst r then stop_video p1
                    else p1\<lparr>calls := calls p1 @
                           [LogShape (shape frame),
                            UpdatePlaybackPosition (pos_frames c1),
                            UpdatePlaybackFrame frame]\<rparr>))"

datatype player_op = Open video_capture bool | Start | Pause | Stop | NextFrame

fun player_step :: "video_player \<Rightarrow> player_op \<Rightarrow> video_player" where
  "player_step p (Open c opened) = snd (open_player p c opened)"
| "player_step p Start = start p"
| "player_step p Pause = pause p"
| "player_step p Stop = stop p"
| "player_step p NextFrame = next_frame p"

definition player_run :: "video_player \<Rightarrow> player_op list \<Rightarrow> video_player" where
  "player_run p ops = foldl player_step p ops"

section \<open>main_window.py and utils.py: timed recording\<close>

text \<open>
  The calls made on \<open>cv2.VideoWriter\<close> objects. A writer is named by the number of
  writers made before it; \<open>WOpen h base n\<close> is the construction of writer \<open>h\<close> on the
  path built from the base path and the segment number \<open>n\<close>.
\<close>

datatype writer_event =
    WOpen nat string nat
  | WRelease nat
  | WWrite nat

text \<open>The recording fields of the main window, and the writers.\<close>

record recorder =
  isRecording :: bool
  timerInterval :: int
  lastRecordTime :: real
  recordOut :: "nat option"
  baseFilePath :: "string option"
  recordSegmentCounter :: nat
  writers_made :: nat
  writer_events :: "writer_event list"

text \<open>\<open>MainWindow.__init__\<close>, at time \<open>now\<close>; the default interval is one minute.\<close>

definition new_recorder :: "real \<Rightarrow> recorder" where
  "new_recorder now =
     \<lparr>isRecording = False, timerInterval = 1, lastRecordTime = now, recordOut = None,
      baseFilePath = None, recordSegmentCounter = 0, writers_made = 0, writer_events = []\<rparr>"

text \<open>\<open>safe_release\<close> of utils.py, on the attribute \<open>recordOut\<close>.\<close>

definition safe_release :: "nat option \<Rightarrow> writer_event list" where
  "safe_release out = (case out of None \<Rightarrow> [] | Some h \<Rightarrow> [WRelease h])"

text \<open>
  \<open>MainWindow.start_new_save_file\<close>. \<open>made\<close> says whether the constructor of
  \<open>cv2.VideoWriter\<close> returns; when it raises, the exception is logged and \<open>recordOut\<close>
  keeps the writer that was just released.
\<close>

definition start_new_save_file :: "bool \<Rightarrow> recorder \<Rightarrow> recorder" where
  "start_new_save_file made s =
     (case baseFilePath s of
        None \<Rightarrow> s
      | Some base \<Rightarrow>
          (let n = recordSegmentCounter s;
               s1 = s\<lparr>recordSegmentCounter := n + 1\<rparr>;
               s2 = s1\<lparr>writer_events := writer_events s1 @ safe_release (recordOut s1)\<rparr>
           in if made
              then s2\<lparr>recordOut := Some (writers_made s2),
                      writers_made := writers_made s2 + 1,
                      writer_events := writer_events s2 @ [WOpen (writers_made s2) base n]\<rparr>
              else s2))"

text \<open>
  \<open>MainWindow.start_recording\<close>: \<open>camera\<close> says whether a capture thread exists,
  \<open>chosen\<close> is the path the file dialog gives (empty when the user cancels), \<open>now\<close> the
  clock after the first segment was opened.
\<close>

definition start_recording :: "bool \<Rightarrow> string \<Rightarrow> bool \<Rightarrow> real \<Rightarrow> recorder \<Rightarrow> recorder" where
  "start_recording camera chosen made now s =
     (if \<not> camera then s
      else if isRecording s then s
      else
        (let s1 = s\<lparr>isRecording := True, recordSegmentCounter := 0,
                     baseFilePath := Some chosen\<rparr>
         in if chosen = [] then s1\<lparr>isRecording := False\<rparr>
            else (start_new_save_file made s1)\<lparr>lastRecordTime := now\<rparr>))"

text \<open>
  \<open>MainWindow.update_frame\<close>, the recording part: a rollover when the interval (in
  minutes) has passed, then the write. An exception of the write is logged.
\<close>

definition update_frame :: "real \<Rightarrow> ndarray option \<Rightarrow> bool \<Rightarrow> recorder \<Rightarrow> recorder" where
  "update_frame now frame made s =
     (if isRecording s \<and> frame \<noteq> None then
        (let s1 = (if now - lastRecordTime s \<ge> real_of_int (timerInterval s * 60)
                   then (start_new_save_file made s)\<lparr>lastRecordTime := now\<rparr>
                   else s)
         in case recordOut s1 of
              None \<Rightarrow> s1
            | Some h \<Rightarrow> s1\<lparr>writer_events := writer_events s1 @ [WWrite h]\<rparr>)
      else s)"

text \<open>\<open>MainWindow.stop_recording\<close>.\<close>

definition stop_recording :: "recorder \<Rightarrow> recorder" where
  "stop_recording s =
     (if isRecording s
      then s\<lparr>isRecording := False,
             writer_events := writer_events s @ safe_release (recordOut s),
             recordOut := None, baseFilePath := None\<rparr>
      else s)"

text \<open>\<open>MainWindow.closeEvent\<close>, the recording part.\<close>

definition closeEvent :: "recorder \<Rightarrow> recorder" where
  "closeEvent s = s\<lparr>writer_events := writer_events s @ safe_release (recordOut s)\<rparr>"

text \<open>\<open>MainWindow.on_interval_change\<close>.\<close>

definition on_interval_change :: "int \<Rightarrow> recorder \<Rightarrow> recorder" where
  "on_interval_change minutes s = s\<lparr>timerInterval := minutes\<rparr>"

datatype recorder_op =
    StartRecording bool string bool real
  | UpdateFrame real "ndarray option" bool
  | StopRecording
  | CloseEvent
  | IntervalChange int

fun recorder_step :: "recorder \<Rightarrow> recorder_op \<Rightarrow> recorder" where
  "recorder_step s (StartRecording camera chosen made now) =
     start_recording camera chosen made now s"
| "recorder_step s (UpdateFrame now frame made) = update_frame now frame made s"
| "recorder_step s StopRecording = stop_recording s"
| "recorder_step s CloseEvent = closeEvent s"
| "recorder_step s (IntervalChange minutes) = on_interval_change minutes s"

definition recorder_run :: "recorder \<Rightarrow> recorder_op list \<Rightarrow> recorder" where
  "recorder_run s ops = foldl recorder_step s ops"

text \<open>
  The writers that are open after an event, given those open before it: constructed and
  not released since.
\<close>

fun writer_step :: "nat list \<Rightarrow> writer_event \<Rightarrow> nat list" where
  "writer_step active (WOpen h base n) = h # active"
| "writer_step active (WRelease h) = removeAll h active"
| "writer_step active (WWrite h) = active"

text \<open>
  At most one writer is open before the events, between any two of them and after them.
\<close>

fun at_most_one :: "nat list \<Rightarrow> writer_event list \<Rightarrow> bool" where
  "at_most_one active [] = (length active \<le> 1)"
| "at_most_one active (e # es) = (length active \<le> 1 \<and> at_most_one (writer_step active e) es)"

text \<open>The writers that are open after all the events of a recorder.\<close>

definition open_writers :: "recorder \<Rightarrow> nat list" where
  "open_writers s = foldl writer_step [] (writer_events s)"

text \<open>
  At most one writer was open at any time, and a writer that is open now is the one in
  \<open>recordOut\<close>, during a recording.
\<close>

definition writers_inv :: "recorder \<Rightarrow> bool" where
  "writers_inv s =
     (at_most_one [] (writer_events s) \<and>
      (open_writers s = [] \<or>
       (isRecording s \<and> [recordOut s] = map Some (open_writers s))))"

subsection \<open>Concrete runs\<close>

text \<open>A camera that cannot be opened, with or without the DirectShow backend.\<close>

definition unopenable_camera :: camera where
  "unopenable_camera = \<lparr>open_dshow = Inr False, open_default = Inr False\<rparr>"

text \<open>A camera that opens with the DirectShow backend.\<close>

definition working_camera :: camera where
  "working_camera = \<lparr>open_dshow = Inr True, open_default = Inr True\<rparr>"

text \<open>A player on a file of two frames, opened and playing.\<close>

definition demo_capture :: video_capture where
  "demo_capture =
     \<lparr>coming = [(True, Array (demo_frame 1)), (True, Array (demo_frame 2))], pos_frames = 0\<rparr>"

definition playing_player :: video_player where
  "playing_player = player_run new_player [Open demo_capture True, Start]"

text \<open>
  A recording of three frames at seconds 1, 2 and 70 after its start at second 0, with the
  default interval of one minute, then stopped.
\<close>

definition demo_recording :: "recorder_op list" where
  "demo_recording =
     [StartRecording True ''out.mp4'' True 0,
      UpdateFrame 1 (Some (demo_frame 1)) True,
      UpdateFrame 2 (Some (demo_frame 2)) True,
      UpdateFrame 70 (Some (demo_frame 3)) True,
      StopRecording]"

section \<open>Properties of YoloDetector\<close>

lemma det_skip_frames:
  "skip_frames (det (detect_and_plot rt self frame c k)) = skip_frames self"
  by (simp add: detect_and_plot_def Let_def
      split: sum.splits list.splits option.splits frame_arg.splits)

lemma det_frame_count:
  "frame_count (det (detect_and_plot rt self (Array f) c k)) = frame_count self + 1"
  by (simp add: detect_and_plot_def Let_def split: sum.splits list.splits option.splits)

text \<open>A call on which the counter is off the inference turn.\<close>

lemma skip_step:
  assumes "skip_frames self + 1 \<noteq> 0"
    and "(frame_count self + 1) mod (skip_frames self + 1) \<noteq> 1"
  shows "detect_and_plot rt self (Array f) c k =
     \<lparr>returned = cached_or (last_result self) f,
      det = self\<lparr>frame_count := frame_count self + 1\<rparr>, inferred = None\<rparr>"
  using assms by (simp add: detect_and_plot_def cached_or_def split: option.splits)

text \<open>A call on the inference turn whose filter and resize go through.\<close>

lemma infer_step:
  assumes "skip_frames self + 1 \<noteq> 0"
    and "(frame_count self + 1) mod (skip_frames self + 1) = 1"
    and "check_classes k = Inr k1"
    and "cv2_resize rt f (640, 480) = Inr g"
    and "yolo_model rt g c k1 \<noteq> Inr []"
  shows "inferred (detect_and_plot rt self (Array f) c k) = Some (InferenceCall g c k1)"
    and "det (detect_and_plot rt self (Array f) c k) =
      self\<lparr>frame_count := frame_count self + 1,
           last_result := most_recent [last_result self, annotate rt (InferenceCall g c k1)]\<rparr>"
  using assms
  by (auto simp add: detect_and_plot_def annotate_def Let_def
      split: sum.splits list.splits option.splits)

text \<open>
  For a skip count of at least one, the model is invoked exactly on the calls whose
  number is 1 modulo \<open>skip_frames + 1\<close>, as long as the filter and the resize go through.
\<close>

lemma infer_iff_turn:
  assumes "skip_frames self \<ge> 1"
    and "check_classes k = Inr k1"
    and "cv2_resize rt f (640, 480) = Inr g"
  shows "(inferred (detect_and_plot rt self (Array f) c k) \<noteq> None) =
     ((frame_count self + 1) mod (skip_frames self + 1) = 1)"
  using assms
  by (auto simp add: detect_and_plot_def Let_def split: sum.splits list.splits option.splits)

lemma skip_zero_step:
  "skip_frames self = 0 \<Longrightarrow> inferred (detect_and_plot rt self frame c k) = None"
  by (simp add: detect_and_plot_def Let_def
      split: sum.splits list.splits option.splits frame_arg.splits)

lemma skip_zero_run:
  "skip_frames self = 0 \<Longrightarrow> list_all (\<lambda>out. inferred out = None) (run_calls self cs)"
  by (induction self cs rule: run_calls.induct)
    (simp_all add: Let_def skip_zero_step det_skip_frames)

text \<open>
  Against C1 as stated: exceptions do leave \<open>detect_and_plot\<close>. On the first call of a
  new detector with skip count 2, an exception of the rendering \<open>r.plot()\<close>, an exception
  of \<open>cv2.resize\<close> and the \<open>TypeError\<close> of iterating over a class filter that is a number
  each reach the caller: the three statements are outside the \<open>try\<close>.
\<close>

theorem exceptions_outside_try_propagate:
  "returned (detect_and_plot plot_failing_runtime (new_detector 2) (Array hd_frame) (1 / 4) PyNone) =
     Inl (LibraryError ''plot failed'')
   \<and> returned (detect_and_plot resize_failing_runtime (new_detector 2) (Array hd_frame) (1 / 4)
        PyNone) = Inl (LibraryError ''resize failed'')
   \<and> returned (detect_and_plot demo_runtime (new_detector 2) (Array hd_frame) (1 / 4) (PyInt 0)) =
     Inl TypeError"
  by (simp add: detect_and_plot_def plot_failing_runtime_def resize_failing_runtime_def
      demo_runtime_def new_detector_def demo_resize_def hd_frame_def)

text \<open>
  C1, amended. When the invocation of the model raises, the call returns the frame it was
  given, as it was given, and not an exception: the exception of the inference does not
  reach the caller. The cached result is left as it was.
\<close>

theorem inference_exception_passthrough:
  assumes "inferred (detect_and_plot rt self (Array frame) c k) = Some call"
    and "yolo_model rt (ic_image call) (ic_conf call) (ic_classes call) = Inl e"
  shows "returned (detect_and_plot rt self (Array frame) c k) = Inr (Some frame)
     \<and> det (detect_and_plot rt self (Array frame) c k) =
         self\<lparr>frame_count := frame_count self + 1\<rparr>"
  using assms
  by (auto simp add: detect_and_plot_def Let_def
      split: sum.splits list.splits option.splits if_splits)

theorem inference_exception_passthrough_witness:
  "inferred (detect_and_plot failing_runtime (new_detector 2) (Array hd_frame) (1 / 4) PyNone) =
     Some (InferenceCall \<lparr>shape = [480, 640, 3], pixels = [1, 2, 3]\<rparr> (1 / 4) PyNone)
   \<and> yolo_model failing_runtime \<lparr>shape = [480, 640, 3], pixels = [1, 2, 3]\<rparr> (1 / 4) PyNone =
     Inl (LibraryError ''inference failed'')
   \<and> returned (detect_and_plot failing_runtime (new_detector 2) (Array hd_frame) (1 / 4) PyNone) =
     Inr (Some hd_frame)
   \<and> det (detect_and_plot failing_runtime (new_detector 2) (Array hd_frame) (1 / 4) PyNone) =
     \<lparr>frame_count = 1, skip_frames = 2, last_result = None\<rparr>"
proof -
  let ?img = "\<lparr>shape = [480, 640, 3], pixels = [1, 2, 3]\<rparr>"
  have i: "inferred (detect_and_plot failing_runtime (new_detector 2) (Array hd_frame) (1 / 4) PyNone) =
     Some (InferenceCall ?img (1 / 4) PyNone)"
    by (simp add: detect_and_plot_def failing_runtime_def new_detector_def demo_resize_def
        hd_frame_def)
  have m: "yolo_model failing_runtime (ic_image (InferenceCall ?img (1 / 4) PyNone))
       (ic_conf (InferenceCall ?img (1 / 4) PyNone))
       (ic_classes (InferenceCall ?img (1 / 4) PyNone)) = Inl (LibraryError ''inference failed'')"
    by (simp add: failing_runtime_def)
  from inference_exception_passthrough [OF i m] i m show ?thesis
    by (simp add: new_detector_def)
qed

text \<open>The first call on a new detector with a skip count of 0, on the stand-in libraries.\<close>

lemma skip_zero_first_call:
  "inferred (detect_and_plot demo_runtime (new_detector 0) (Array hd_frame) (1 / 4) PyNone) = None
   \<and> returned (detect_and_plot demo_runtime (new_detector 0) (Array hd_frame) (1 / 4) PyNone) =
       Inr (Some hd_frame)"
  by (simp add: detect_and_plot_def new_detector_def)

text \<open>
  C2. With a skip count of 0 the remainder of the counter modulo 1 is never 1: no call
  of any sequence on a new detector invokes the model, where the claim has every call
  invoke it.
\<close>

theorem skip_zero_never_infers:
  "list_all (\<lambda>out. inferred out = None) (run_calls (new_detector 0) cs)"
  by (rule skip_zero_run) (simp add: new_detector_def)

text \<open>
  C9. A call that invokes the model and was given a string, or a list with an element that
  is not an integer, as its class filter invokes the model with no filter.
\<close>

theorem invalid_classes_no_filter:
  assumes "inferred (detect_and_plot rt self frame c classes) = Some call"
    and "(\<exists>s. classes = PyStr s) \<or>
         (\<exists>items. classes = PyList items \<and> (\<exists>x \<in> set items. \<not> isinstance_int x))"
  shows "ic_classes call = PyNone"
  using assms
  by (auto simp add: detect_and_plot_def Let_def list_all_iff
      split: sum.splits list.splits option.splits if_splits frame_arg.splits)

theorem invalid_classes_no_filter_witness:
  "inferred (detect_and_plot demo_runtime (new_detector 2) (Array hd_frame) (3 / 10)
       (PyList [PyStr ''person'', PyStr ''car''])) =
     Some (InferenceCall \<lparr>shape = [480, 640, 3], pixels = [1, 2, 3]\<rparr> (3 / 10) PyNone)
   \<and> ic_classes (InferenceCall \<lparr>shape = [480, 640, 3], pixels = [1, 2, 3]\<rparr> (3 / 10) PyNone) =
       PyNone"
proof -
  let ?call = "InferenceCall \<lparr>shape = [480, 640, 3], pixels = [1, 2, 3]\<rparr> (3 / 10) PyNone"
  have i: "inferred (detect_and_plot demo_runtime (new_detector 2) (Array hd_frame) (3 / 10)
       (PyList [PyStr ''person'', PyStr ''car''])) = Some ?call"
    by (simp add: detect_and_plot_def demo_runtime_def new_detector_def demo_resize_def
        hd_frame_def)
  have h: "(\<exists>s. PyList [PyStr ''person'', PyStr ''car''] = PyStr s) \<or>
         (\<exists>items. PyList [PyStr ''person'', PyStr ''car''] = PyList items \<and>
            (\<exists>x \<in> set items. \<not> isinstance_int x))"
    by simp
  from invalid_classes_no_filter [OF i h] i show ?thesis by simp
qed

text \<open>
  C10. A call whose frame is \<open>None\<close> or another object that is not an ndarray returns
  \<open>None\<close>, leaves the detector (counter and cached result) as it was, and does not invoke
  the model.
\<close>

theorem invalid_frame_returns_none:
  "detect_and_plot rt self (NotArray v) c k =
     \<lparr>returned = Inr None, det = self, inferred = None\<rparr>"
  by (simp add: detect_and_plot_def)

theorem invalid_frame_returns_none_witness:
  "detect_and_plot demo_runtime \<lparr>frame_count = 4, skip_frames = 2, last_result = Some hd_frame\<rparr>
       (NotArray PyNone) (1 / 4) PyNone =
     \<lparr>returned = Inr None,
      det = \<lparr>frame_count = 4, skip_frames = 2, last_result = Some hd_frame\<rparr>,
      inferred = None\<rparr>"
  by (rule invalid_frame_returns_none)


text \<open>
  C3. Nine consecutive calls with ndarray frames on a new detector with a skip count of 2,
  where on calls 1, 4 and 7 the class filter can be iterated, the resize goes through and
  the model, if it returns, returns a result object. The model is invoked on calls 1, 4
  and 7 and on no other call; calls 2, 3, 5, 6, 8 and 9 return the most recent annotated
  frame of the invocations before them, or their own input frame when there is none.
\<close>

theorem skip_two_nine_calls:
  fixes rtA rtB rtC rtD rtE rtF rtG rtH rtI :: "'r runtime"
    and fA fB fC fD fE fF fG fH fI :: ndarray
    and cA cB cC cD cE cF cG cH cI :: real
    and kA kB kC kD kE kF kG kH kI :: pyval
  assumes rA: "check_classes kA = Inr jA" "cv2_resize rtA fA (640, 480) = Inr gA"
       "yolo_model rtA gA cA jA \<noteq> Inr []"
    and rD: "check_classes kD = Inr jD" "cv2_resize rtD fD (640, 480) = Inr gD"
       "yolo_model rtD gD cD jD \<noteq> Inr []"
    and rG: "check_classes kG = Inr jG" "cv2_resize rtG fG (640, 480) = Inr gG"
       "yolo_model rtG gG cG jG \<noteq> Inr []"
  defines "aA \<equiv> annotate rtA (InferenceCall gA cA jA)"
    and "aD \<equiv> annotate rtD (InferenceCall gD cD jD)"
    and "aG \<equiv> annotate rtG (InferenceCall gG cG jG)"
  defines "outs \<equiv> run_calls (new_detector 2)
       [(rtA, Array fA, cA, kA), (rtB, Array fB, cB, kB), (rtC, Array fC, cC, kC),
        (rtD, Array fD, cD, kD), (rtE, Array fE, cE, kE), (rtF, Array fF, cF, kF),
        (rtG, Array fG, cG, kG), (rtH, Array fH, cH, kH), (rtI, Array fI, cI, kI)]"
  shows "map inferred outs =
       [Some (InferenceCall gA cA jA), None, None,
        Some (InferenceCall gD cD jD), None, None,
        Some (InferenceCall gG cG jG), None, None]
     \<and> returned (outs ! 1) = cached_or (most_recent [aA]) fB
     \<and> returned (outs ! 2) = cached_or (most_recent [aA]) fC
     \<and> returned (outs ! 4) = cached_or (most_recent [aA, aD]) fE
     \<and> returned (outs ! 5) = cached_or (most_recent [aA, aD]) fF
     \<and> returned (outs ! 7) = cached_or (most_recent [aA, aD, aG]) fH
     \<and> returned (outs ! 8) = cached_or (most_recent [aA, aD, aG]) fI"
proof -
  define oA where "oA = detect_and_plot rtA (new_detector 2) (Array fA) cA kA"
  define oB where "oB = detect_and_plot rtB (det oA) (Array fB) cB kB"
  define oC where "oC = detect_and_plot rtC (det oB) (Array fC) cC kC"
  define oD where "oD = detect_and_plot rtD (det oC) (Array fD) cD kD"
  define oE where "oE = detect_and_plot rtE (det oD) (Array fE) cE kE"
  define oF where "oF = detect_and_plot rtF (det oE) (Array fF) cF kF"
  define oG where "oG = detect_and_plot rtG (det oF) (Array fG) cG kG"
  define oH where "oH = detect_and_plot rtH (det oG) (Array fH) cH kH"
  define oI where "oI = detect_and_plot rtI (det oH) (Array fI) cI kI"
  have outs: "outs = [oA, oB, oC, oD, oE, oF, oG, oH, oI]"
    by (simp add: outs_def Let_def oA_def oB_def oC_def oD_def oE_def oF_def oG_def
        oH_def oI_def)
  have iA: "inferred oA = Some (InferenceCall gA cA jA)"
    and dA: "det oA = \<lparr>frame_count = 1, skip_frames = 2, last_result = aA\<rparr>"
    unfolding oA_def aA_def
    using infer_step [of "new_detector 2" kA jA rtA fA gA cA] rA
    by (simp_all add: new_detector_def split: option.splits)
  have eB: "oB = \<lparr>returned = cached_or aA fB,
       det = \<lparr>frame_count = 2, skip_frames = 2, last_result = aA\<rparr>, inferred = None\<rparr>"
    unfolding oB_def dA by (simp add: skip_step)
  have eC: "oC = \<lparr>returned = cached_or aA fC,
       det = \<lparr>frame_count = 3, skip_frames = 2, last_result = aA\<rparr>, inferred = None\<rparr>"
    unfolding oC_def eB by (simp add: skip_step)
  have iD: "inferred oD = Some (InferenceCall gD cD jD)"
    and dD: "det oD = \<lparr>frame_count = 4, skip_frames = 2, last_result = most_recent [aA, aD]\<rparr>"
    unfolding oD_def eC aD_def
    using infer_step [of "\<lparr>frame_count = 3, skip_frames = 2, last_result = aA\<rparr>"
        kD jD rtD fD gD cD] rD
    by (simp_all split: option.splits)
  have eE: "oE = \<lparr>returned = cached_or (most_recent [aA, aD]) fE,
       det = \<lparr>frame_count = 5, skip_frames = 2, last_result = most_recent [aA, aD]\<rparr>,
       inferred = None\<rparr>"
    unfolding oE_def dD by (simp add: skip_step)
  have eF: "oF = \<lparr>returned = cached_or (most_recent [aA, aD]) fF,
       det = \<lparr>frame_count = 6, skip_frames = 2, last_result = most_recent [aA, aD]\<rparr>,
       inferred = None\<rparr>"
    unfolding oF_def eE by (simp add: skip_step)
  have iG: "inferred oG = Some (InferenceCall gG cG jG)"
    and dG: "det oG = \<lparr>frame_count = 7, skip_frames = 2,
        last_result = most_recent [aA, aD, aG]\<rparr>"
    unfolding oG_def eF aG_def
    using infer_step [of "\<lparr>frame_count = 6, skip_frames = 2,
          last_result = most_recent [aA, aD]\<rparr>" kG jG rtG fG gG cG] rG
    by (simp_all split: option.splits)
  have eH: "oH = \<lparr>returned = cached_or (most_recent [aA, aD, aG]) fH,
       det = \<lparr>frame_count = 8, skip_frames = 2, last_result = most_recent [aA, aD, aG]\<rparr>,
       inferred = None\<rparr>"
    unfolding oH_def dG by (simp add: skip_step)
  have eI: "oI = \<lparr>returned = cached_or (most_recent [aA, aD, aG]) fI,
       det = \<lparr>frame_count = 9, skip_frames = 2, last_result = most_recent [aA, aD, aG]\<rparr>,
       inferred = None\<rparr>"
    unfolding oI_def eH by (simp add: skip_step)
  show ?thesis
    unfolding outs using iA eB eC iD eE eF iG eH eI by simp
qed


theorem skip_two_nine_calls_witness:
  "map inferred (run_calls (new_detector 2) demo_nine_calls) =
     [Some (InferenceCall \<lparr>shape = [480, 640, 3], pixels = [1]\<rparr> (1 / 4) PyNone), None, None,
      Some (InferenceCall \<lparr>shape = [480, 640, 3], pixels = [4]\<rparr> (1 / 4) PyNone), None, None,
      Some (InferenceCall \<lparr>shape = [480, 640, 3], pixels = [7]\<rparr> (1 / 4) PyNone), None, None]
   \<and> returned (run_calls (new_detector 2) demo_nine_calls ! 1) = Inr (Some (demo_annotated 1))
   \<and> returned (run_calls (new_detector 2) demo_nine_calls ! 2) = Inr (Some (demo_annotated 1))
   \<and> returned (run_calls (new_detector 2) demo_nine_calls ! 4) = Inr (Some (demo_annotated 1))
   \<and> returned (run_calls (new_detector 2) demo_nine_calls ! 5) = Inr (Some (demo_annotated 1))
   \<and> returned (run_calls (new_detector 2) demo_nine_calls ! 7) = Inr (Some (demo_annotated 7))
   \<and> returned (run_calls (new_detector 2) demo_nine_calls ! 8) = Inr (Some (demo_annotated 7))"
proof -
  let ?g = "\<lambda>n. \<lparr>shape = [480, 640, 3], pixels = [n::nat]\<rparr>"
  have rs: "cv2_resize demo_runtime (demo_frame 1) (640, 480) = Inr (?g 1)"
    "cv2_resize failing_runtime (demo_frame 4) (640, 480) = Inr (?g 4)"
    "cv2_resize demo_runtime (demo_frame 7) (640, 480) = Inr (?g 7)"
    by (simp_all add: demo_runtime_def failing_runtime_def demo_resize_def demo_frame_def)
  have ms: "yolo_model demo_runtime (?g 1) (1 / 4) PyNone \<noteq> Inr []"
    "yolo_model failing_runtime (?g 4) (1 / 4) PyNone \<noteq> Inr []"
    "yolo_model demo_runtime (?g 7) (1 / 4) PyNone \<noteq> Inr []"
    by (simp_all add: demo_runtime_def failing_runtime_def)
  have ck: "check_classes PyNone = Inr PyNone" by simp
  have an: "annotate demo_runtime (InferenceCall (?g 1) (1 / 4) PyNone) = Some (demo_annotated 1)"
    "annotate failing_runtime (InferenceCall (?g 4) (1 / 4) PyNone) = None"
    "annotate demo_runtime (InferenceCall (?g 7) (1 / 4) PyNone) = Some (demo_annotated 7)"
    by (simp_all add: annotate_def demo_runtime_def failing_runtime_def demo_annotated_def)
  note nine = skip_two_nine_calls [where rtB = demo_runtime
      and fB = "demo_frame 2"
      and cB = "1 / 4"
      and kB = PyNone
      and rtC = demo_runtime
      and fC = "demo_frame 3"
      and cC = "1 / 4"
      and kC = PyNone
      and rtE = demo_runtime
      and fE = "demo_frame 5"
      and cE = "1 / 4"
      and kE = PyNone
      and rtF = demo_runtime
      and fF = "demo_frame 6"
      and cF = "1 / 4"
      and kF = PyNone
      and rtH = demo_runtime
      and fH = "demo_frame 8"
      and cH = "1 / 4"
      and kH = PyNone
      and rtI = demo_runtime
      and fI = "demo_frame 9"
      and cI = "1 / 4"
      and kI = PyNone,
      OF ck rs(1) ms(1) ck rs(2) ms(2) ck rs(3) ms(3)]
  show ?thesis
    unfolding demo_nine_calls_def using nine an
    by (simp add: cached_or_def)
qed

text \<open>
  Against C8 as stated: two calls on frames of 720 rows and 1280 columns, skip count 2,
  on the stand-in libraries. The second call invokes no model, and what it returns is the
  rendering of the frame that the first call resized to 480 rows and 640 columns, not a
  frame of the size of its input.
\<close>

theorem skipped_call_returns_resized_frame:
  "inferred (run_calls (new_detector 2)
       [(demo_runtime, Array (demo_frame 1), 1 / 4, PyNone),
        (demo_runtime, Array (demo_frame 2), 1 / 4, PyNone)] ! 1) = None
   \<and> returned (run_calls (new_detector 2)
       [(demo_runtime, Array (demo_frame 1), 1 / 4, PyNone),
        (demo_runtime, Array (demo_frame 2), 1 / 4, PyNone)] ! 1) = Inr (Some (demo_annotated 1))
   \<and> cv2_resize demo_runtime (demo_frame 1) (640, 480) =
       Inr \<lparr>shape = [480, 640, 3], pixels = [1]\<rparr>
   \<and> plot demo_runtime \<lparr>shape = [480, 640, 3], pixels = [1]\<rparr> = Inr (demo_annotated 1)
   \<and> shape (demo_annotated 1) = [480, 640, 3]
   \<and> shape (demo_frame 2) = [720, 1280, 3]"
  by (simp add: detect_and_plot_def demo_runtime_def new_detector_def demo_resize_def
      demo_frame_def demo_annotated_def)

text \<open>
  C8, amended. Let resizing give an array of the requested height and width, and let the
  rendering of a result have the shape of the image the model was invoked on. A call that
  invokes the model and gets an annotated frame has invoked it on the input resized to
  640 by 480, and returns and caches that annotated frame as rendered, 480 rows by 640
  columns, with no resize back. A call that invokes no model and returns a value returns
  the cached result as it is stored, which is at the working resolution when it is an
  annotated frame, or else its input frame as it is; it leaves the cache as it was.
\<close>

theorem inference_keeps_working_resolution:
  assumes resize_contract:
    "\<And>f w h g. cv2_resize rt f (w, h) = Inr g \<Longrightarrow> take 2 (shape g) = [h, w]"
    and plot_contract:
    "\<And>img cf cl r rs a. yolo_model rt img cf cl = Inr (r # rs) \<Longrightarrow> plot rt r = Inr a
       \<Longrightarrow> shape a = shape img"
  shows "(\<forall>call a.
            inferred (detect_and_plot rt self (Array frame) c k) = Some call
            \<and> annotate rt call = Some a \<longrightarrow>
              cv2_resize rt frame (640, 480) = Inr (ic_image call)
              \<and> returned (detect_and_plot rt self (Array frame) c k) = Inr (Some a)
              \<and> last_result (det (detect_and_plot rt self (Array frame) c k)) = Some a
              \<and> take 2 (shape a) = [480, 640])
       \<and> (\<forall>v. inferred (detect_and_plot rt self (Array frame) c k) = None
            \<and> returned (detect_and_plot rt self (Array frame) c k) = Inr v \<longrightarrow>
              Inr v = cached_or (last_result self) frame
              \<and> last_result (det (detect_and_plot rt self (Array frame) c k)) = last_result self)"
proof (intro conjI allI impI)
  fix call a
  assume h: "inferred (detect_and_plot rt self (Array frame) c k) = Some call
      \<and> annotate rt call = Some a"
  then obtain g k1 r rs where
    g: "cv2_resize rt frame (640, 480) = Inr g" and call: "call = InferenceCall g c k1"
    and m: "yolo_model rt g c k1 = Inr (r # rs)" and p: "plot rt r = Inr a"
    by (auto simp add: detect_and_plot_def annotate_def Let_def
        split: sum.splits list.splits option.splits if_splits)
  show "cv2_resize rt frame (640, 480) = Inr (ic_image call)"
    using g call by simp
  from h g call m p
  show "returned (detect_and_plot rt self (Array frame) c k) = Inr (Some a)"
    by (auto simp add: detect_and_plot_def Let_def
        split: sum.splits list.splits option.splits if_splits)
  from h g call m p
  show "last_result (det (detect_and_plot rt self (Array frame) c k)) = Some a"
    by (auto simp add: detect_and_plot_def Let_def
        split: sum.splits list.splits option.splits if_splits)
  have "shape a = shape g"
    using plot_contract [OF m p] .
  moreover have "take 2 (shape g) = [480, 640]"
    using resize_contract [OF g] .
  ultimately show "take 2 (shape a) = [480, 640]"
    by simp
next
  fix v
  assume h: "inferred (detect_and_plot rt self (Array frame) c k) = None
      \<and> returned (detect_and_plot rt self (Array frame) c k) = Inr v"
  then show "Inr v = cached_or (last_result self) frame"
    by (auto simp add: detect_and_plot_def cached_or_def Let_def
        split: sum.splits list.splits option.splits if_splits)
  from h show "last_result (det (detect_and_plot rt self (Array frame) c k)) = last_result self"
    by (auto simp add: detect_and_plot_def Let_def
        split: sum.splits list.splits option.splits if_splits)
qed

theorem inference_keeps_working_resolution_witness:
  "inferred (detect_and_plot demo_runtime (new_detector 2) (Array (demo_frame 1)) (1 / 4) PyNone) =
     Some (InferenceCall \<lparr>shape = [480, 640, 3], pixels = [1]\<rparr> (1 / 4) PyNone)
   \<and> annotate demo_runtime (InferenceCall \<lparr>shape = [480, 640, 3], pixels = [1]\<rparr> (1 / 4) PyNone) =
     Some (demo_annotated 1)
   \<and> cv2_resize demo_runtime (demo_frame 1) (640, 480) =
     Inr \<lparr>shape = [480, 640, 3], pixels = [1]\<rparr>
   \<and> returned (detect_and_plot demo_runtime (new_detector 2) (Array (demo_frame 1)) (1 / 4) PyNone) =
     Inr (Some (demo_annotated 1))
   \<and> take 2 (shape (demo_annotated 1)) = [480, 640]
   \<and> inferred (detect_and_plot demo_runtime
        \<lparr>frame_count = 1, skip_frames = 2, last_result = Some (demo_annotated 1)\<rparr>
        (Array (demo_frame 2)) (1 / 4) PyNone) = None
   \<and> returned (detect_and_plot demo_runtime
        \<lparr>frame_count = 1, skip_frames = 2, last_result = Some (demo_annotated 1)\<rparr>
        (Array (demo_frame 2)) (1 / 4) PyNone) = Inr (Some (demo_annotated 1))"
proof -
  let ?ic = "InferenceCall \<lparr>shape = [480, 640, 3], pixels = [1]\<rparr> (1 / 4) PyNone"
  let ?s1 = "\<lparr>frame_count = 1, skip_frames = 2, last_result = Some (demo_annotated 1)\<rparr>"
  have rc: "\<And>f w h g. cv2_resize demo_runtime f (w, h) = Inr g \<Longrightarrow> take 2 (shape g) = [h, w]"
    by (auto simp add: demo_runtime_def demo_resize_def)
  have pc: "\<And>img cf cl r rs a. yolo_model demo_runtime img cf cl = Inr (r # rs)
      \<Longrightarrow> plot demo_runtime r = Inr a \<Longrightarrow> shape a = shape img"
    by (auto simp add: demo_runtime_def)
  have i: "inferred (detect_and_plot demo_runtime (new_detector 2) (Array (demo_frame 1)) (1 / 4)
       PyNone) = Some ?ic"
    by (simp add: detect_and_plot_def demo_runtime_def new_detector_def demo_resize_def
        demo_frame_def)
  have a: "annotate demo_runtime ?ic = Some (demo_annotated 1)"
    by (simp add: annotate_def demo_runtime_def demo_annotated_def)
  have n: "inferred (detect_and_plot demo_runtime ?s1 (Array (demo_frame 2)) (1 / 4) PyNone) = None"
    by (simp add: detect_and_plot_def)
  have r: "returned (detect_and_plot demo_runtime ?s1 (Array (demo_frame 2)) (1 / 4) PyNone) =
      Inr (Some (demo_annotated 1))"
    by (simp add: detect_and_plot_def)
  note t1 = inference_keeps_working_resolution [of demo_runtime "new_detector 2" "demo_frame 1"
      "1 / 4" PyNone, OF rc pc]
  note t2 = inference_keeps_working_resolution [of demo_runtime ?s1 "demo_frame 2"
      "1 / 4" PyNone, OF rc pc]
  have c1: "cv2_resize demo_runtime (demo_frame 1) (640, 480) = Inr (ic_image ?ic)
      \<and> returned (detect_and_plot demo_runtime (new_detector 2) (Array (demo_frame 1)) (1 / 4)
        PyNone) = Inr (Some (demo_annotated 1))
      \<and> take 2 (shape (demo_annotated 1)) = [480, 640]"
    using t1 i a by simp
  from c1 t2 i a n r show ?thesis by simp
qed


section \<open>Properties of VideoCaptureThread\<close>

lemma time_sleep_30: "time_sleep 30 = None"
  by (simp add: time_sleep_def)

text \<open>
  When the loop of \<open>run\<close> is left without an exception (on a stop request or a failed
  read), the capture has been released, as the last event, and only once.
\<close>

lemma capture_loop_releases:
  "capture_loop rt fps d script tr0 = Some r \<Longrightarrow> run_raised r = None \<Longrightarrow>
     run_cap r = Released \<and>
     (\<exists>mid. run_events r = tr0 @ mid @ [CapRelease] \<and> CapRelease \<notin> set mid)"
proof (induction rt fps d script tr0 rule: capture_loop.induct)
  case (1 rt fps d tr)
  then show ?case by simp
next
  case (2 rt fps d rest tr0)
  then have "run_cap r = Released \<and> run_events r = tr0 @ [] @ [CapRelease]
      \<and> CapRelease \<notin> set []"
    by auto
  then show ?case by blast
next
  case (3 rt fps d ret frame rest tr0)
  have failed: "run_cap r = Released \<and>
      (\<exists>mid. run_events r = tr0 @ mid @ [CapRelease] \<and> CapRelease \<notin> set mid)"
    if "r = \<lparr>run_raised = None,
              run_events = tr0 @ [CapRead, CameraError ReadFailed, CapRelease],
              run_cap = Released\<rparr>"
  proof -
    from that have "run_cap r = Released
        \<and> run_events r = tr0 @ [CapRead, CameraError ReadFailed] @ [CapRelease]
        \<and> CapRelease \<notin> set [CapRead, CameraError ReadFailed]"
      by simp
    then show ?thesis by blast
  qed
  show ?case
  proof (cases frame)
    case None
    with "3.prems" show ?thesis by (intro failed) simp
  next
    case (Some f)
    show ?thesis
    proof (cases ret)
      case False
      with "3.prems" Some show ?thesis by (intro failed) simp
    next
      case True
      show ?thesis
      proof (cases "time_sleep fps")
        case (Some e)
        with "3.prems" \<open>frame = Some f\<close> True show ?thesis by auto
      next
        case None
        let ?tr1 = "tr0 @ [CapRead, FrameCaptured (fst (detect_frame rt d f)), Sleep]"
        from "3.prems"(1) \<open>frame = Some f\<close> True None
        have loop: "capture_loop rt fps (snd (detect_frame rt d f)) rest ?tr1 = Some r"
          by simp
        from True have nn: "\<not> \<not> ret" by simp
        from "3.IH" [OF \<open>frame = Some f\<close> nn None loop "3.prems"(2)]
        obtain mid where rel: "run_cap r = Released"
          and ev: "run_events r = ?tr1 @ mid @ [CapRelease]" and no: "CapRelease \<notin> set mid"
          by auto
        let ?mid = "[CapRead, FrameCaptured (fst (detect_frame rt d f)), Sleep] @ mid"
        from ev no have "run_events r = tr0 @ ?mid @ [CapRelease] \<and> CapRelease \<notin> set ?mid"
          by simp
        with rel show ?thesis by blast
      qed
    qed
  qed
qed

text \<open>
  When the loop is left by an exception, it is the exception of the sleep, and the capture
  is still open: no statement releases it.
\<close>

lemma capture_loop_raises:
  "capture_loop rt fps d script tr0 = Some r \<Longrightarrow> run_raised r = Some e \<Longrightarrow>
     run_cap r = Opened \<and> time_sleep fps = Some e"
proof (induction rt fps d script tr0 rule: capture_loop.induct)
  case (1 rt fps d tr)
  then show ?case by simp
next
  case (2 rt fps d rest tr0)
  then show ?case by auto
next
  case (3 rt fps d ret frame rest tr0)
  show ?case
  proof (cases frame)
    case None
    with "3.prems" show ?thesis by auto
  next
    case (Some f)
    show ?thesis
    proof (cases ret)
      case False
      with "3.prems" Some show ?thesis by auto
    next
      case True
      show ?thesis
      proof (cases "time_sleep fps")
        case (Some e1)
        with "3.prems" \<open>frame = Some f\<close> True show ?thesis by auto
      next
        case None
        from "3.prems"(1) \<open>frame = Some f\<close> True None
        have loop: "capture_loop rt fps (snd (detect_frame rt d f)) rest
            (tr0 @ [CapRead, FrameCaptured (fst (detect_frame rt d f)), Sleep]) = Some r"
          by simp
        from True have nn: "\<not> \<not> ret" by simp
        from "3.IH" [OF \<open>frame = Some f\<close> nn None loop "3.prems"(2)]
        show ?thesis .
      qed
    qed
  qed
qed

text \<open>
  With a frame rate below zero, a run on a camera that opens leaves by the \<open>ValueError\<close>
  of the sleep after its first frame, with the capture open.
\<close>

lemma negative_fps_keeps_capture:
  "run demo_runtime (- 1) None working_camera [ReadResult True (Some hd_frame), StopRequested] =
     Some \<lparr>run_raised = Some ValueError,
           run_events = [CapSetProps, CapRead, FrameCaptured (Some hd_frame)],
           run_cap = Opened\<rparr>"
  by (simp add: run_def working_camera_def time_sleep_def detect_frame_def)

text \<open>
  C4. When \<open>run\<close> returns (no exception leaves it), the capture object holds no device
  handle: after a failure to open the camera none was acquired, and after a stop request
  or a failed read the capture has been released, by the last action of the run and only
  once.
\<close>

theorem run_returns_released:
  assumes "run rt fps d cam script = Some r" and "run_raised r = None"
  shows "run_cap r \<noteq> Opened
     \<and> (run_cap r = NotOpened \<longrightarrow>
          (case open_dshow cam of Inl _ \<Rightarrow> open_default cam | Inr b \<Rightarrow> Inr b) = Inr False)
     \<and> (run_cap r = Released \<longrightarrow>
          last (run_events r) = CapRelease \<and> count_list (run_events r) CapRelease = 1)"
proof (cases "case open_dshow cam of Inl _ \<Rightarrow> open_default cam | Inr b \<Rightarrow> Inr b")
  case (Inl e)
  with assms show ?thesis by (auto simp add: run_def)
next
  case (Inr opened)
  show ?thesis
  proof (cases opened)
    case False
    with assms Inr show ?thesis by (auto simp add: run_def)
  next
    case True
    with assms Inr have "capture_loop rt fps d script [CapSetProps] = Some r"
      by (simp add: run_def)
    from capture_loop_releases [OF this assms(2)]
    obtain mid where "run_cap r = Released"
      "run_events r = [CapSetProps] @ mid @ [CapRelease]" "CapRelease \<notin> set mid"
      by auto
    then show ?thesis by (simp add: count_list_0_iff)
  qed
qed

theorem run_returns_released_witness:
  "run demo_runtime 30 None working_camera [ReadResult True (Some hd_frame), StopRequested] =
     Some \<lparr>run_raised = None,
           run_events = [CapSetProps, CapRead, FrameCaptured (Some hd_frame), Sleep, CapRelease],
           run_cap = Released\<rparr>
   \<and> run demo_runtime 30 None working_camera [ReadResult False None] =
     Some \<lparr>run_raised = None,
           run_events = [CapSetProps, CapRead, CameraError ReadFailed, CapRelease],
           run_cap = Released\<rparr>
   \<and> run demo_runtime 30 None unopenable_camera [] =
     Some \<lparr>run_raised = None,
           run_events = [CapSetProps, CameraError CannotOpenCamera],
           run_cap = NotOpened\<rparr>
   \<and> run_cap \<lparr>run_raised = None,
           run_events = [CapSetProps, CapRead, FrameCaptured (Some hd_frame), Sleep, CapRelease],
           run_cap = Released\<rparr> \<noteq> Opened
   \<and> run_cap \<lparr>run_raised = None,
           run_events = [CapSetProps, CapRead, CameraError ReadFailed, CapRelease],
           run_cap = Released\<rparr> \<noteq> Opened
   \<and> run_cap \<lparr>run_raised = None,
           run_events = [CapSetProps, CameraError CannotOpenCamera],
           run_cap = NotOpened\<rparr> \<noteq> Opened"
proof -
  let ?stopped = "\<lparr>run_raised = None,
      run_events = [CapSetProps, CapRead, FrameCaptured (Some hd_frame), Sleep, CapRelease],
      run_cap = Released\<rparr>"
  let ?failed = "\<lparr>run_raised = None,
      run_events = [CapSetProps, CapRead, CameraError ReadFailed, CapRelease],
      run_cap = Released\<rparr>"
  let ?unopened = "\<lparr>run_raised = None,
      run_events = [CapSetProps, CameraError CannotOpenCamera],
      run_cap = NotOpened\<rparr>"
  have a: "run demo_runtime 30 None working_camera
      [ReadResult True (Some hd_frame), StopRequested] = Some ?stopped"
    by (simp add: run_def working_camera_def time_sleep_30 detect_frame_def)
  have b: "run demo_runtime 30 None working_camera [ReadResult False None] = Some ?failed"
    by (simp add: run_def working_camera_def)
  have c: "run demo_runtime 30 None unopenable_camera [] = Some ?unopened"
    by (simp add: run_def unopenable_camera_def)
  have n: "run_raised ?stopped = None" "run_raised ?failed = None" "run_raised ?unopened = None"
    by simp_all
  from run_returns_released [OF a n(1)] run_returns_released [OF b n(2)]
    run_returns_released [OF c n(3)] a b c
  show ?thesis by simp
qed

text \<open>
  C7. A second \<open>stop\<close> changes nothing: of a player, neither its flags, nor its timer, nor
  its capture, nor the calls made so far, so it makes no call that could raise; of a
  capture thread, neither its flag, nor its phase, nor the events of the worker.
\<close>

theorem stop_twice:
  "stop (stop p) = stop p \<and> stop_thread (stop_thread t rest) rest2 = stop_thread t rest"
proof
  show "stop (stop p) = stop p"
    by (simp add: stop_def Let_def split: option.splits)
  show "stop_thread (stop_thread t rest) rest2 = stop_thread t rest"
    by (cases "phase t") (simp_all add: stop_thread_def qthread_wait_def qthread_quit_def)
qed

theorem stop_twice_witness:
  "stop (stop playing_player) = stop playing_player
   \<and> stop playing_player =
       \<lparr>cap = None, isPlaying = False, isPaused = False, timer_active = False,
        calls = [TimerStart, TimerStop, Release]\<rparr>
   \<and> stop_thread (stop_thread \<lparr>running = True, phase = InRun, events = [CapSetProps]\<rparr>
         [CapRelease]) [CapRelease] =
       \<lparr>running = False, phase = Finished, events = [CapSetProps, CapRelease]\<rparr>"
proof -
  have p: "stop playing_player =
       \<lparr>cap = None, isPlaying = False, isPaused = False, timer_active = False,
        calls = [TimerStart, TimerStop, Release]\<rparr>"
    by (simp add: playing_player_def player_run_def open_player_def start_def stop_def
        new_player_def)
  have t: "stop_thread \<lparr>running = True, phase = InRun, events = [CapSetProps]\<rparr> [CapRelease] =
       \<lparr>running = False, phase = Finished, events = [CapSetProps, CapRelease]\<rparr>"
    by (simp add: stop_thread_def qthread_wait_def qthread_quit_def)
  from stop_twice [of playing_player "\<lparr>running = True, phase = InRun, events = [CapSetProps]\<rparr>"
      "[CapRelease]" "[CapRelease]"] p t
  show ?thesis by simp
qed

section \<open>Properties of VideoPlayer\<close>

lemma player_step_flags:
  assumes "\<not> (isPlaying p \<and> isPaused p)"
  shows "\<not> (isPlaying (player_step p x) \<and> isPaused (player_step p x))"
proof (cases x)
  case (Open c opened)
  with assms show ?thesis by (simp add: open_player_def)
next
  case Start
  then show ?thesis by (simp add: start_def)
next
  case Pause
  then show ?thesis by (simp add: pause_def)
next
  case Stop
  then show ?thesis by (simp add: stop_def Let_def split: option.splits)
next
  case NextFrame
  with assms show ?thesis
    by (auto simp add: next_frame_def stop_video_def stop_def Let_def
        split: option.splits prod.splits frame_arg.splits if_splits)
qed

lemma player_run_flags:
  "\<not> (isPlaying p \<and> isPaused p) \<Longrightarrow>
     \<not> (isPlaying (player_run p xs) \<and> isPaused (player_run p xs))"
  unfolding player_run_def
proof (induction xs arbitrary: p)
  case Nil
  then show ?case by simp
next
  case (Cons x xs)
  from Cons.IH [OF player_step_flags [OF Cons.prems]] show ?case by simp
qed

text \<open>
  C6. From any state a new player reaches by its operations, any sequence of operations
  (start, pause and stop, and also open and the timer's slot) leads to a state where
  \<open>isPlaying\<close> and \<open>isPaused\<close> are not both true.
\<close>

theorem never_playing_and_paused:
  "\<not> (isPlaying (player_run (player_run new_player before) xs)
      \<and> isPaused (player_run (player_run new_player before) xs))"
proof -
  have "\<not> (isPlaying new_player \<and> isPaused new_player)"
    by (simp add: new_player_def)
  then show ?thesis
    by (intro player_run_flags)
qed

theorem never_playing_and_paused_witness:
  "\<not> (isPlaying (player_run (player_run new_player [Open demo_capture True, Start, NextFrame])
         [Pause, Start, Pause])
      \<and> isPaused (player_run (player_run new_player [Open demo_capture True, Start, NextFrame])
         [Pause, Start, Pause]))"
  by (rule never_playing_and_paused)


section \<open>Properties of the timed recording\<close>

lemma at_most_one_start: "at_most_one active es \<Longrightarrow> length active \<le> 1"
  by (cases es) simp_all

lemma at_most_one_append:
  "at_most_one active (xs @ ys) =
     (at_most_one active xs \<and> at_most_one (foldl writer_step active xs) ys)"
proof (induction xs arbitrary: active)
  case Nil
  then show ?case by (auto dest: at_most_one_start)
next
  case (Cons x xs)
  then show ?case by auto
qed

lemma writers_inv_fields:
  assumes "writer_events s1 = writer_events s" and "recordOut s1 = recordOut s"
    and "isRecording s1 = isRecording s"
  shows "writers_inv s1 = writers_inv s"
  using assms by (simp add: writers_inv_def open_writers_def)

lemma writers_inv_lastRecordTime:
  "writers_inv (s\<lparr>lastRecordTime := now\<rparr>) = writers_inv s"
  by (rule writers_inv_fields) simp_all

lemma start_new_save_file_flags:
  "isRecording (start_new_save_file made s) = isRecording s"
  by (simp add: start_new_save_file_def Let_def split: option.splits)

lemma start_new_save_file_inv:
  assumes "writers_inv s" and "isRecording s"
  shows "writers_inv (start_new_save_file made s)"
proof (cases "baseFilePath s")
  case None
  with assms show ?thesis by (simp add: start_new_save_file_def)
next
  case (Some base)
  show ?thesis
  proof (cases "open_writers s")
    case Nil
    with assms Some show ?thesis
      by (auto simp add: writers_inv_def open_writers_def start_new_save_file_def Let_def
          safe_release_def at_most_one_append split: option.splits)
  next
    case (Cons h hs)
    with assms have hs: "hs = []" and out: "recordOut s = Some h"
      by (auto simp add: writers_inv_def)
    with assms Some Cons show ?thesis
      by (auto simp add: writers_inv_def open_writers_def start_new_save_file_def Let_def
          safe_release_def at_most_one_append)
  qed
qed

lemma stopped_no_writer:
  assumes "writers_inv s" and "\<not> isRecording s"
  shows "open_writers s = []"
  using assms by (auto simp add: writers_inv_def)

lemma release_out_inv:
  assumes "writers_inv s"
  shows "at_most_one [] (writer_events s @ safe_release (recordOut s))"
    and "foldl writer_step [] (writer_events s @ safe_release (recordOut s)) = []"
proof -
  show "at_most_one [] (writer_events s @ safe_release (recordOut s))"
    using assms
    by (cases "open_writers s")
      (auto simp add: writers_inv_def open_writers_def safe_release_def at_most_one_append
        split: option.splits)
  show "foldl writer_step [] (writer_events s @ safe_release (recordOut s)) = []"
    using assms
    by (cases "open_writers s")
      (auto simp add: writers_inv_def open_writers_def safe_release_def
        split: option.splits)
qed

lemma stop_recording_inv:
  assumes "writers_inv s"
  shows "writers_inv (stop_recording s)" and "open_writers (stop_recording s) = []"
proof -
  show "open_writers (stop_recording s) = []"
  proof (cases "isRecording s")
    case True
    then show ?thesis
      using release_out_inv(2) [OF assms] by (simp add: stop_recording_def open_writers_def)
  next
    case False
    then show ?thesis
      using stopped_no_writer [OF assms] by (simp add: stop_recording_def)
  qed
  then show "writers_inv (stop_recording s)"
    using assms release_out_inv(1) [OF assms]
    by (auto simp add: writers_inv_def stop_recording_def open_writers_def)
qed

lemma closeEvent_inv:
  assumes "writers_inv s"
  shows "writers_inv (closeEvent s)"
  using release_out_inv [OF assms]
  by (simp add: writers_inv_def closeEvent_def open_writers_def)

lemma start_recording_inv:
  assumes "writers_inv s"
  shows "writers_inv (start_recording camera chosen made now s)"
proof (cases "camera \<and> \<not> isRecording s \<and> chosen \<noteq> []")
  case True
  let ?s1 = "s\<lparr>isRecording := True, recordSegmentCounter := 0, baseFilePath := Some chosen\<rparr>"
  from assms True have "open_writers s = []"
    by (simp add: stopped_no_writer)
  with assms have "writers_inv ?s1"
    by (simp add: writers_inv_def open_writers_def)
  then have "writers_inv (start_new_save_file made ?s1)"
    by (rule start_new_save_file_inv) simp
  then have "writers_inv ((start_new_save_file made ?s1)\<lparr>lastRecordTime := now\<rparr>)"
    by (simp add: writers_inv_lastRecordTime)
  with True show ?thesis
    by (simp add: start_recording_def Let_def)
next
  case False
  from assms have "open_writers s = [] \<or> isRecording s"
    by (auto simp add: writers_inv_def)
  with assms False show ?thesis
    by (auto simp add: start_recording_def Let_def writers_inv_def open_writers_def)
qed

lemma update_frame_inv:
  assumes "writers_inv s"
  shows "writers_inv (update_frame now frame made s)"
proof (cases "isRecording s \<and> frame \<noteq> None")
  case False
  with assms show ?thesis by (auto simp add: update_frame_def)
next
  case True
  define s1 where "s1 = (if now - lastRecordTime s \<ge> real_of_int (timerInterval s * 60)
                   then (start_new_save_file made s)\<lparr>lastRecordTime := now\<rparr>
                   else s)"
  have "writers_inv (start_new_save_file made s)"
    using assms True by (simp add: start_new_save_file_inv)
  then have "writers_inv ((start_new_save_file made s)\<lparr>lastRecordTime := now\<rparr>)"
    by (simp add: writers_inv_lastRecordTime)
  with assms have i1: "writers_inv s1"
    by (simp add: s1_def)
  have eq: "update_frame now frame made s =
      (case recordOut s1 of
         None \<Rightarrow> s1
       | Some h \<Rightarrow> s1\<lparr>writer_events := writer_events s1 @ [WWrite h]\<rparr>)"
    unfolding update_frame_def Let_def s1_def using True by simp
  have "writers_inv (case recordOut s1 of
              None \<Rightarrow> s1
            | Some h \<Rightarrow> s1\<lparr>writer_events := writer_events s1 @ [WWrite h]\<rparr>)"
    using i1
    by (cases "open_writers s1")
      (auto simp add: writers_inv_def open_writers_def at_most_one_append
        split: option.splits)
  then show ?thesis
    unfolding eq .
qed

lemma recorder_step_inv:
  "writers_inv s \<Longrightarrow> writers_inv (recorder_step s x)"
proof (cases x)
  case (IntervalChange minutes)
  have "writers_inv (on_interval_change minutes s) = writers_inv s"
    by (rule writers_inv_fields) (simp_all add: on_interval_change_def)
  with IntervalChange show "writers_inv s \<Longrightarrow> ?thesis" by simp
qed (simp_all add: start_recording_inv update_frame_inv stop_recording_inv closeEvent_inv)

lemma recorder_run_inv:
  "writers_inv s \<Longrightarrow> writers_inv (recorder_run s xs)"
  unfolding recorder_run_def
  by (induction xs arbitrary: s) (simp_all add: recorder_step_inv)

lemma new_recorder_inv: "writers_inv (new_recorder now)"
  by (simp add: writers_inv_def open_writers_def new_recorder_def)

text \<open>
  C5. Over any sequence of operations on the recording state of a new main window, at
  most one writer is open before, between and after the calls made on writers. A
  rollover appends the release of the writer in \<open>recordOut\<close> and then the construction of
  the next writer, in this order, and stopping a recording leaves no writer open.
\<close>

theorem one_writer_at_a_time:
  "at_most_one [] (writer_events (recorder_run (new_recorder t0) xs))
   \<and> open_writers (stop_recording (recorder_run (new_recorder t0) xs)) = []
   \<and> (baseFilePath s = Some base \<longrightarrow>
        writer_events (start_new_save_file True s) =
          writer_events s @ safe_release (recordOut s) @
            [WOpen (writers_made s) base (recordSegmentCounter s)])"
proof -
  have inv: "writers_inv (recorder_run (new_recorder t0) xs)"
    by (rule recorder_run_inv [OF new_recorder_inv])
  then have "at_most_one [] (writer_events (recorder_run (new_recorder t0) xs))"
    by (simp add: writers_inv_def)
  moreover have "open_writers (stop_recording (recorder_run (new_recorder t0) xs)) = []"
    by (rule stop_recording_inv(2) [OF inv])
  moreover have "baseFilePath s = Some base \<longrightarrow>
        writer_events (start_new_save_file True s) =
          writer_events s @ safe_release (recordOut s) @
            [WOpen (writers_made s) base (recordSegmentCounter s)]"
    by (simp add: start_new_save_file_def Let_def)
  ultimately show ?thesis by blast
qed

theorem one_writer_at_a_time_witness:
  "writer_events (recorder_run (new_recorder 0) demo_recording) =
     [WOpen 0 ''out.mp4'' 0, WWrite 0, WWrite 0,
      WRelease 0, WOpen 1 ''out.mp4'' 1, WWrite 1, WRelease 1]
   \<and> at_most_one [] (writer_events (recorder_run (new_recorder 0) demo_recording))
   \<and> open_writers (stop_recording (recorder_run (new_recorder 0) demo_recording)) = []
   \<and> baseFilePath (recorder_run (new_recorder 0) (butlast demo_recording)) = Some ''out.mp4''
   \<and> writer_events (start_new_save_file True
        (recorder_run (new_recorder 0) (butlast demo_recording))) =
       [WOpen 0 ''out.mp4'' 0, WWrite 0, WWrite 0,
        WRelease 0, WOpen 1 ''out.mp4'' 1, WWrite 1, WRelease 1, WOpen 2 ''out.mp4'' 2]"
proof -
  have ev: "writer_events (recorder_run (new_recorder 0) demo_recording) =
     [WOpen 0 ''out.mp4'' 0, WWrite 0, WWrite 0,
      WRelease 0, WOpen 1 ''out.mp4'' 1, WWrite 1, WRelease 1]"
    by (simp add: demo_recording_def recorder_run_def new_recorder_def start_recording_def
        start_new_save_file_def update_frame_def stop_recording_def safe_release_def Let_def)
  have st: "recorder_run (new_recorder 0) (butlast demo_recording) =
     \<lparr>isRecording = True, timerInterval = 1, lastRecordTime = 70, recordOut = Some 1,
      baseFilePath = Some ''out.mp4'', recordSegmentCounter = 2, writers_made = 2,
      writer_events = [WOpen 0 ''out.mp4'' 0, WWrite 0, WWrite 0,
        WRelease 0, WOpen 1 ''out.mp4'' 1, WWrite 1]\<rparr>"
    by (simp add: demo_recording_def recorder_run_def new_recorder_def start_recording_def
        start_new_save_file_def update_frame_def stop_recording_def safe_release_def Let_def)
  from one_writer_at_a_time [of 0 demo_recording
      "recorder_run (new_recorder 0) (butlast demo_recording)" "''out.mp4''"] ev st
  show ?thesis by (simp add: safe_release_def)
qed


end
